theory Spec2Isabelle
  imports Main
begin

section \<open>Error values\<close>

text \<open>
  A Go \<^verbatim>\<open>error\<close> is an interface value. Three kinds of it occur here:
  \<^item> the nil interface (\<open>NilError\<close>);
  \<^item> an error made outside the package (\<open>Foreign\<close>): how Go's \<^verbatim>\<open>==\<close> treats it,
    what identifies it under \<^verbatim>\<open>==\<close> (the address for a pointer such as the result of
    \<^verbatim>\<open>errors.New\<close>), and the text its \<^verbatim>\<open>Error()\<close> returns. Two errors
    with the same text and different identities are different values;
  \<^item> a \<^verbatim>\<open>*matchedError\<close> (\<open>Matched\<close>): the address of the struct, and its fields
    \<^verbatim>\<open>code\<close>, \<^verbatim>\<open>err\<close> and \<^verbatim>\<open>msg\<close> in the order of the declaration.
\<close>

text \<open>
  How \<^verbatim>\<open>==\<close> treats a value, by its dynamic type and contents:
  \<^item> \<open>Uncomparable\<close>: the dynamic type is not comparable (a slice, a map, a struct that
    holds one); comparing or hashing the value panics;
  \<^item> \<open>ComparableNaN\<close>: the dynamic type is comparable and the value holds a floating-point
    NaN (as \<^verbatim>\<open>type floatError float64\<close> can); the value can be hashed, and \<^verbatim>\<open>==\<close>
    is false between it and every value, itself included;
  \<^item> \<open>Comparable\<close>: the dynamic type is comparable and the value is equal to itself (a
    pointer, a string).
\<close>

datatype equality = Uncomparable | ComparableNaN | Comparable

datatype 'a error =
    NilError
  | Foreign equality 'a string
  | Matched nat int "'a error" string

text \<open>
  What stops a call: Go's runtime panics when a map with interface keys hashes a key whose
  dynamic type is not comparable, and when a method is called on the nil interface; a
  function supplied by the caller may panic on its own.
\<close>

datatype panic = HashOfUnhashableType | NilDereference | Raised string

text \<open>
  A key of \<^verbatim>\<open>map[error]int\<close> can be hashed when its dynamic type is comparable. The nil
  interface and every pointer are.
\<close>

fun hashable :: "'a error \<Rightarrow> bool" where
  "hashable NilError = True"
| "hashable (Foreign eq ident text) = (eq \<noteq> Uncomparable)"
| "hashable (Matched addr code err msg) = True"

text \<open>
  Go's \<^verbatim>\<open>==\<close> on two interface values that can be hashed, which is how a map compares
  its keys: the same value on both sides, and a value that is equal to itself. The nil
  interface and every pointer are equal to themselves.
\<close>

fun selfEqual :: "'a error \<Rightarrow> bool" where
  "selfEqual NilError = True"
| "selfEqual (Foreign eq ident text) = (eq = Comparable)"
| "selfEqual (Matched addr code err msg) = True"

definition interfaceEq :: "'a error \<Rightarrow> 'a error \<Rightarrow> bool" where
  "interfaceEq a b \<longleftrightarrow> a = b \<and> selfEqual a"

text \<open>
  A \<^verbatim>\<open>map[error]int\<close> is the list of its entries; the order of the list is of no
  account, since the code never ranges over this map. \<open>mapaccess\<close> is the read
  \<^verbatim>\<open>m[k]\<close> with its \<^verbatim>\<open>ok\<close>: the entry whose key is \<^verbatim>\<open>==\<close> to \<open>k\<close>.
  \<open>mapassign\<close> is the write \<^verbatim>\<open>m[k] = v\<close>: it replaces the entry whose key is
  \<^verbatim>\<open>==\<close> to \<open>k\<close>, and adds an entry when there is none. An entry whose key is not equal
  to itself is stored and never found, and a second write of that key adds a second entry.
  Both hash the key, which the callers below check first.
\<close>

type_synonym 'a errorMap = "('a error \<times> int) list"

definition mapaccess :: "'a errorMap \<Rightarrow> 'a error \<Rightarrow> int option" where
  "mapaccess m k = map_option snd (find (\<lambda>entry. interfaceEq (fst entry) k) m)"

definition mapassign :: "'a errorMap \<Rightarrow> 'a error \<Rightarrow> int \<Rightarrow> 'a errorMap" where
  "mapassign m k v = (k, v) # filter (\<lambda>entry. \<not> interfaceEq (fst entry) k) m"

text \<open>
  The methods of \<^verbatim>\<open>*matchedError\<close>. \<^verbatim>\<open>Code\<close> and \<^verbatim>\<open>Unwrap\<close> are reached through
  the type assertion \<^verbatim>\<open>err.(ClassifiedError)\<close>, which fails (\<open>None\<close>) on every other
  value; foreign errors are taken not to implement \<^verbatim>\<open>ClassifiedError\<close>.
  \<^verbatim>\<open>Error\<close> belongs to every error; on the nil interface the call panics.
\<close>

fun matchedError_Code :: "'a error \<Rightarrow> int option" where
  "matchedError_Code (Matched addr code err msg) = Some code"
| "matchedError_Code e = None"

fun matchedError_Unwrap :: "'a error \<Rightarrow> 'a error option" where
  "matchedError_Unwrap (Matched addr code err msg) = Some err"
| "matchedError_Unwrap e = None"

fun Error :: "'a error \<Rightarrow> panic + string" where
  "Error NilError = Inl NilDereference"
| "Error (Foreign eq ident text) = Inr text"
| "Error (Matched addr code err msg) = Inr msg"

text \<open>
  The check the specification describes for a decorated error: "is this error, or does it
  wrap this error, equal to X", following \<^verbatim>\<open>Unwrap\<close> down the chain.
\<close>

fun wrapsOrIs :: "'a error \<Rightarrow> 'a error \<Rightarrow> bool" where
  "wrapsOrIs (Matched addr code err msg) target =
     (Matched addr code err msg = target \<or> wrapsOrIs err target)"
| "wrapsOrIs e target = (e = target)"

section \<open>Rules, decoders and the function types\<close>

text \<open>
  Functions supplied by the caller return \<open>Inl\<close> when they panic. Go's \<^verbatim>\<open>int\<close> is
  modelled by \<open>int\<close>: codes are stored and compared, never computed with.

  An \<open>EncoderFunc\<close> takes one more argument than in Go: the order in which
  \<^verbatim>\<open>range\<close> visits the keys of \<^verbatim>\<open>codeToMatcher\<close> during this call, which Go leaves
  to the runtime. Only the default encoder reads it.
\<close>

type_synonym 'a MatcherFunc = "'a error \<Rightarrow> panic + bool"

type_synonym 'a EncoderFunc = "int list \<Rightarrow> 'a error \<Rightarrow> panic + (int \<times> string)"

type_synonym MessageTranslatorFunc = "string \<Rightarrow> panic + string"

text \<open>\<^verbatim>\<open>Match\<close> is \<open>None\<close> for a nil func.\<close>

record 'a Rule =
  Code :: int
  Message :: string
  Errors :: "'a error list"
  Match :: "'a MatcherFunc option"

record 'a Decoder =
  encoder :: "'a EncoderFunc"
  msgTranslator :: MessageTranslatorFunc

type_synonym 'a Option = "'a Decoder \<Rightarrow> 'a Decoder"

record 'a ruleIndex =
  codeToMatcher :: "int \<rightharpoonup> 'a MatcherFunc"
  codeToMessage :: "int \<rightharpoonup> string"
  errToCode :: "'a errorMap"

text \<open>
  What the runtime decides during one call of \<^verbatim>\<open>Translate\<close>: the order of the
  \<^verbatim>\<open>range\<close> over \<^verbatim>\<open>codeToMatcher\<close>, and the address of the \<^verbatim>\<open>matchedError\<close> it
  allocates.
\<close>

record runtime =
  rangeOrder :: "int list"
  newAddr :: nat

section \<open>Options\<close>

definition Message_option :: "MessageTranslatorFunc \<Rightarrow> 'a Option" where
  "Message_option t = (\<lambda>d. d\<lparr>msgTranslator := t\<rparr>)"

definition Encoder :: "'a EncoderFunc \<Rightarrow> 'a Option" where
  "Encoder enc = (\<lambda>d. d\<lparr>encoder := enc\<rparr>)"

definition defaultMessageTranslator :: MessageTranslatorFunc where
  "defaultMessageTranslator msg = Inr msg"

section \<open>The rule index\<close>

text \<open>
  The inner loop of \<^verbatim>\<open>newRuleIndex\<close>, \<^verbatim>\<open>errToCode[e] = code\<close> for each known error
  of a rule. The assignment hashes the key.
\<close>

fun insertErrors :: "int \<Rightarrow> 'a error list \<Rightarrow> 'a errorMap \<Rightarrow> panic + 'a errorMap" where
  "insertErrors code [] m = Inr m"
| "insertErrors code (e # es) m =
     (if hashable e then insertErrors code es (mapassign m e code)
      else Inl HashOfUnhashableType)"

text \<open>The outer loop, over the rules in input order, with the three maps built so far.\<close>

fun indexRules :: "'a Rule list \<Rightarrow> 'a ruleIndex \<Rightarrow> panic + 'a ruleIndex" where
  "indexRules [] idx = Inr idx"
| "indexRules (rule # rs) idx =
     (let code = Code rule;
          messages = (codeToMessage idx)(code \<mapsto> Message rule);
          matchers = (case Match rule of
                        None \<Rightarrow> codeToMatcher idx
                      | Some m \<Rightarrow> (codeToMatcher idx)(code \<mapsto> m))
      in case insertErrors code (Errors rule) (errToCode idx) of
           Inl p \<Rightarrow> Inl p
         | Inr errs \<Rightarrow>
             indexRules rs \<lparr>codeToMatcher = matchers, codeToMessage = messages, errToCode = errs\<rparr>)"

definition newRuleIndex :: "'a Rule list \<Rightarrow> panic + 'a ruleIndex" where
  "newRuleIndex rs =
     indexRules rs \<lparr>codeToMatcher = Map.empty, codeToMessage = Map.empty, errToCode = []\<rparr>"

section \<open>The default encoder\<close>

text \<open>\<^verbatim>\<open>idx.codeToMessage[code]\<close>: a missing key reads as the zero value.\<close>

definition messageAt :: "(int \<rightharpoonup> string) \<Rightarrow> int \<Rightarrow> string" where
  "messageAt m code = (case m code of None \<Rightarrow> [] | Some s \<Rightarrow> s)"

text \<open>
  The \<^verbatim>\<open>range\<close> over \<^verbatim>\<open>codeToMatcher\<close>, visiting the keys in the given order, and the
  \<^verbatim>\<open>return 0, ""\<close> after it.
\<close>

fun rangeMatchers :: "'a ruleIndex \<Rightarrow> 'a error \<Rightarrow> int list \<Rightarrow> panic + (int \<times> string)" where
  "rangeMatchers idx err [] = Inr (0, [])"
| "rangeMatchers idx err (code # rest) =
     (case codeToMatcher idx code of
        None \<Rightarrow> rangeMatchers idx err rest
      | Some matcher \<Rightarrow>
          (case matcher err of
             Inl p \<Rightarrow> Inl p
           | Inr isMatch \<Rightarrow>
               if isMatch then Inr (code, messageAt (codeToMessage idx) code)
               else rangeMatchers idx err rest))"

text \<open>The closure \<^verbatim>\<open>newDefaultEncoder\<close> returns. The lookup hashes \<^verbatim>\<open>err\<close>.\<close>

definition defaultEncoder :: "'a ruleIndex \<Rightarrow> 'a EncoderFunc" where
  "defaultEncoder idx order err =
     (if \<not> hashable err then Inl HashOfUnhashableType
      else case mapaccess (errToCode idx) err of
             Some code \<Rightarrow> Inr (code, messageAt (codeToMessage idx) code)
           | None \<Rightarrow> rangeMatchers idx err order)"

definition newDefaultEncoder :: "'a Rule list \<Rightarrow> panic + 'a EncoderFunc" where
  "newDefaultEncoder rs =
     (case newRuleIndex rs of Inl p \<Rightarrow> Inl p | Inr idx \<Rightarrow> Inr (defaultEncoder idx))"

section \<open>The decoder\<close>

definition New :: "'a Rule list \<Rightarrow> 'a Option list \<Rightarrow> panic + 'a Decoder" where
  "New rs options =
     (case newDefaultEncoder rs of
        Inl p \<Rightarrow> Inl p
      | Inr enc \<Rightarrow>
          Inr (fold (\<lambda>option d. option d) options
                 \<lparr>encoder = enc, msgTranslator = defaultMessageTranslator\<rparr>))"

definition Translate :: "'a Decoder \<Rightarrow> runtime \<Rightarrow> 'a error \<Rightarrow> panic + 'a error" where
  "Translate d rt err =
     (case encoder d (rangeOrder rt) err of
        Inl p \<Rightarrow> Inl p
      | Inr (code, msg) \<Rightarrow>
          if code = 0 then Inr err
          else (case msgTranslator d msg of
                  Inl p \<Rightarrow> Inl p
                | Inr translated \<Rightarrow> Inr (Matched (newAddr rt) code err translated)))"

text \<open>\<^verbatim>\<open>errdecode.New(rs, options...).Translate(err)\<close>, as the tests call it.\<close>

definition New_Translate ::
    "'a Rule list \<Rightarrow> 'a Option list \<Rightarrow> runtime \<Rightarrow> 'a error \<Rightarrow> panic + 'a error" where
  "New_Translate rs options rt err =
     (case New rs options of Inl p \<Rightarrow> Inl p | Inr d \<Rightarrow> Translate d rt err)"

text \<open>\<^verbatim>\<open>newDefaultEncoder(rs)(err)\<close>: the default encoder built from \<open>rs\<close>, then called.\<close>

definition newDefaultEncoder_call ::
    "'a Rule list \<Rightarrow> int list \<Rightarrow> 'a error \<Rightarrow> panic + (int \<times> string)" where
  "newDefaultEncoder_call rs order err =
     (case newDefaultEncoder rs of Inl p \<Rightarrow> Inl p | Inr enc \<Rightarrow> enc order err)"

section \<open>The invariant of the rule index\<close>

text \<open>
  Every code that has a matcher, and every code some error value is mapped to (the value
  of every entry of \<^verbatim>\<open>errToCode\<close>, found by a lookup or not), has a message.
\<close>

definition ruleIndex_wf :: "'a ruleIndex \<Rightarrow> bool" where
  "ruleIndex_wf idx \<longleftrightarrow>
     dom (codeToMatcher idx) \<union> snd ` set (errToCode idx) \<subseteq> dom (codeToMessage idx)"

section \<open>Values of the tests, and a few more\<close>

definition errClient1 :: "nat error" where
  "errClient1 = Foreign Comparable 1 ''client error 1''"

definition errClient2 :: "nat error" where
  "errClient2 = Foreign Comparable 2 ''client error 2''"

definition errUnclassified :: "nat error" where
  "errUnclassified = Foreign Comparable 3 ''unclassified error''"

text \<open>
  An error whose dynamic type is a slice, as
  \<^verbatim>\<open>type sliceError []string; func (e sliceError) Error() string\<close> declares.
\<close>

definition sliceError :: "nat error" where
  "sliceError = Foreign Uncomparable 4 ''slice error''"

text \<open>
  An error that holds a NaN, as \<^verbatim>\<open>floatError(math.NaN())\<close> with
  \<^verbatim>\<open>type floatError float64; func (e floatError) Error() string\<close>.
\<close>

definition nanError :: "nat error" where
  "nanError = Foreign ComparableNaN 5 ''NaN error''"

definition clientRule :: "nat Rule" where
  "clientRule =
     \<lparr>Code = 1001, Message = ''error.client'', Errors = [errClient1, errClient2], Match = None\<rparr>"

text \<open>The matcher of \<^verbatim>\<open>TestConfiguredCatchAll\<close>.\<close>

definition catchAll :: "'a MatcherFunc" where
  "catchAll err = Inr True"

definition catchAllRule :: "nat Rule" where
  "catchAllRule =
     \<lparr>Code = 1000, Message = ''error.catchall'', Errors = [], Match = Some catchAll\<rparr>"

text \<open>A later rule that lists \<open>errClient1\<close> again, under another code.\<close>

definition relistRule :: "nat Rule" where
  "relistRule = \<lparr>Code = 1002, Message = ''error.relist'', Errors = [errClient1], Match = None\<rparr>"

text \<open>A predicate rule that shares the code of \<open>clientRule\<close>.\<close>

definition sharedCodeRule :: "nat Rule" where
  "sharedCodeRule =
     \<lparr>Code = 1001, Message = ''error.predicate'', Errors = [], Match = Some catchAll\<rparr>"

text \<open>A later rule with the code of \<open>catchAllRule\<close> and no predicate.\<close>

definition plainRule :: "nat Rule" where
  "plainRule = \<lparr>Code = 1000, Message = ''error.plain'', Errors = [], Match = None\<rparr>"

text \<open>A rule that uses the reserved code 0.\<close>

definition zeroRule :: "nat Rule" where
  "zeroRule = \<lparr>Code = 0, Message = ''error.zero'', Errors = [errUnclassified], Match = None\<rparr>"

text \<open>The index and the decoder of \<open>[clientRule]\<close>.\<close>

definition clientIndex :: "nat ruleIndex" where
  "clientIndex =
     \<lparr>codeToMatcher = Map.empty,
      codeToMessage = [1001 \<mapsto> ''error.client''],
      errToCode = [(errClient2, 1001), (errClient1, 1001)]\<rparr>"

definition clientDecoder :: "nat Decoder" where
  "clientDecoder =
     \<lparr>encoder = defaultEncoder clientIndex, msgTranslator = defaultMessageTranslator\<rparr>"

text \<open>The encoder of \<^verbatim>\<open>TestUnclassifiedHandling\<close>, and a translator that changes every message.\<close>

definition unclassifiedEncoder :: "'a EncoderFunc" where
  "unclassifiedEncoder order err = Inr (0, [])"

definition shoutTranslator :: MessageTranslatorFunc where
  "shoutTranslator msg = Inr (msg @ ''!'')"

text \<open>The index of \<open>[clientRule, catchAllRule]\<close>, and the index of \<open>[catchAllRule, plainRule]\<close>.\<close>

definition mixedIndex :: "nat ruleIndex" where
  "mixedIndex =
     \<lparr>codeToMatcher = [1000 \<mapsto> catchAll],
      codeToMessage = [1001 \<mapsto> ''error.client'', 1000 \<mapsto> ''error.catchall''],
      errToCode = [(errClient2, 1001), (errClient1, 1001)]\<rparr>"

definition plainIndex :: "nat ruleIndex" where
  "plainIndex =
     \<lparr>codeToMatcher = [1000 \<mapsto> catchAll],
      codeToMessage = [1000 \<mapsto> ''error.plain''],
      errToCode = []\<rparr>"

text \<open>The decoder of \<open>[clientRule]\<close> with the option \<open>Message_option shoutTranslator\<close>.\<close>

definition shoutDecoder :: "nat Decoder" where
  "shoutDecoder = \<lparr>encoder = defaultEncoder clientIndex, msgTranslator = shoutTranslator\<rparr>"

text \<open>The index and the decoder of \<open>[zeroRule]\<close>.\<close>

definition zeroIndex :: "nat ruleIndex" where
  "zeroIndex =
     \<lparr>codeToMatcher = Map.empty,
      codeToMessage = [0 \<mapsto> ''error.zero''],
      errToCode = [(errUnclassified, 0)]\<rparr>"

definition zeroDecoder :: "nat Decoder" where
  "zeroDecoder = \<lparr>encoder = defaultEncoder zeroIndex, msgTranslator = defaultMessageTranslator\<rparr>"

text \<open>The decoder of \<open>[catchAllRule]\<close>.\<close>

definition catchAllIndex :: "nat ruleIndex" where
  "catchAllIndex =
     \<lparr>codeToMatcher = [1000 \<mapsto> catchAll],
      codeToMessage = [1000 \<mapsto> ''error.catchall''],
      errToCode = []\<rparr>"

definition catchAllDecoder :: "nat Decoder" where
  "catchAllDecoder =
     \<lparr>encoder = defaultEncoder catchAllIndex, msgTranslator = defaultMessageTranslator\<rparr>"

text \<open>A known error that holds a NaN, under a code other than 0 and under the code 0.\<close>

definition nanRule :: "nat Rule" where
  "nanRule = \<lparr>Code = 1004, Message = ''error.nan'', Errors = [nanError], Match = None\<rparr>"

definition nanZeroRule :: "nat Rule" where
  "nanZeroRule = \<lparr>Code = 0, Message = ''error.zero'', Errors = [nanError], Match = None\<rparr>"

text \<open>A rule whose predicate matches nothing.\<close>

definition neverMatch :: "'a MatcherFunc" where
  "neverMatch err = Inr False"

definition neverRule :: "nat Rule" where
  "neverRule = \<lparr>Code = 1003, Message = ''error.never'', Errors = [], Match = Some neverMatch\<rparr>"

text \<open>The index and the decoder of \<open>[nanZeroRule, neverRule]\<close>.\<close>

definition nanZeroIndex :: "nat ruleIndex" where
  "nanZeroIndex =
     \<lparr>codeToMatcher = [1003 \<mapsto> neverMatch],
      codeToMessage = [0 \<mapsto> ''error.zero'', 1003 \<mapsto> ''error.never''],
      errToCode = [(nanError, 0)]\<rparr>"

definition nanZeroDecoder :: "nat Decoder" where
  "nanZeroDecoder =
     \<lparr>encoder = defaultEncoder nanZeroIndex, msgTranslator = defaultMessageTranslator\<rparr>"

text \<open>The index and the decoder of \<open>[clientRule, relistRule]\<close>.\<close>

definition relistIndex :: "nat ruleIndex" where
  "relistIndex =
     \<lparr>codeToMatcher = Map.empty,
      codeToMessage = [1001 \<mapsto> ''error.client'', 1002 \<mapsto> ''error.relist''],
      errToCode = [(errClient1, 1002), (errClient2, 1001)]\<rparr>"

definition relistDecoder :: "nat Decoder" where
  "relistDecoder =
     \<lparr>encoder = defaultEncoder relistIndex, msgTranslator = defaultMessageTranslator\<rparr>"

section \<open>Facts about the map of error values\<close>

lemma find_filter_implied:
  "(\<And>x. P x \<Longrightarrow> Q x) \<Longrightarrow> find P (filter Q xs) = find P xs"
  by (induction xs) auto

lemma mapaccess_mapassign:
  "mapaccess (mapassign m k v) k' = (if interfaceEq k k' then Some v else mapaccess m k')"
proof (cases "interfaceEq k k'")
  case True
  then show ?thesis by (simp add: mapaccess_def mapassign_def)
next
  case False
  have "find (\<lambda>entry. interfaceEq (fst entry) k')
          (filter (\<lambda>entry. \<not> interfaceEq (fst entry) k) m) =
        find (\<lambda>entry. interfaceEq (fst entry) k') m"
  proof (rule find_filter_implied)
    fix x :: "'a error \<times> int"
    assume "interfaceEq (fst x) k'"
    with False show "\<not> interfaceEq (fst x) k" by (auto simp: interfaceEq_def)
  qed
  with False show ?thesis by (simp add: mapaccess_def mapassign_def)
qed

lemma mapaccess_Some:
  assumes "mapaccess m k = Some c"
  shows "selfEqual k" and "c \<in> snd ` set m"
proof -
  from assms obtain x where x: "find (\<lambda>entry. interfaceEq (fst entry) k) m = Some x"
    and c: "c = snd x"
    by (auto simp: mapaccess_def)
  from x have "interfaceEq (fst x) k" and "x \<in> set m"
    by (auto simp: find_Some_iff in_set_conv_nth)
  with c show "selfEqual k" and "c \<in> snd ` set m" by (auto simp: interfaceEq_def)
qed

lemma mapassign_values: "snd ` set (mapassign m k v) \<subseteq> insert v (snd ` set m)"
  by (auto simp: mapassign_def)

section \<open>Facts about the compilation of the index\<close>

lemma insertErrors_lookup:
  "insertErrors code es m = Inr m' \<Longrightarrow>
     mapaccess m' e = (if e \<in> set es \<and> selfEqual e then Some code else mapaccess m e)"
  by (induction es arbitrary: m)
     (auto simp: mapaccess_mapassign interfaceEq_def split: if_splits)

lemma insertErrors_values:
  "insertErrors code es m = Inr m' \<Longrightarrow> snd ` set m' \<subseteq> insert code (snd ` set m)"
proof (induction es arbitrary: m)
  case Nil
  then show ?case by auto
next
  case (Cons a es)
  then have "snd ` set m' \<subseteq> insert code (snd ` set (mapassign m a code))"
    by (auto split: if_splits)
  with mapassign_values[of m a code] show ?case by blast
qed

lemma insertErrors_hashable:
  "insertErrors code es m = Inr m' \<Longrightarrow> e \<in> set es \<Longrightarrow> hashable e"
  by (induction es arbitrary: m) (auto split: if_splits)

lemma insertErrors_returns:
  "(\<forall>e\<in>set es. hashable e) \<Longrightarrow> \<exists>m'. insertErrors code es m = Inr m'"
  by (induction es arbitrary: m) auto

lemma indexRules_append:
  "indexRules (xs @ ys) idx =
     (case indexRules xs idx of Inl p \<Rightarrow> Inl p | Inr i \<Rightarrow> indexRules ys i)"
  by (induction xs arbitrary: idx) (auto simp: Let_def split: sum.splits)

lemma indexRules_step:
  "indexRules (r # rs) i = Inr idx \<Longrightarrow>
     \<exists>errs. insertErrors (Code r) (Errors r) (errToCode i) = Inr errs \<and>
       indexRules rs \<lparr>codeToMatcher = (case Match r of None \<Rightarrow> codeToMatcher i
                                         | Some m \<Rightarrow> (codeToMatcher i)(Code r \<mapsto> m)),
                      codeToMessage = (codeToMessage i)(Code r \<mapsto> Message r),
                      errToCode = errs\<rparr> = Inr idx"
  by (auto simp: Let_def split: sum.splits)

lemma indexRules_message_kept:
  "indexRules post i = Inr idx \<Longrightarrow> codeToMessage i c = Some m \<Longrightarrow>
   (\<forall>r\<in>set post. Code r = c \<longrightarrow> Message r = m) \<Longrightarrow> codeToMessage idx c = Some m"
proof (induction post arbitrary: i)
  case Nil
  then show ?case by simp
next
  case (Cons r post)
  from indexRules_step[OF Cons.prems(1)] obtain errs i' where
    i': "i' = \<lparr>codeToMatcher = (case Match r of None \<Rightarrow> codeToMatcher i
                                         | Some m \<Rightarrow> (codeToMatcher i)(Code r \<mapsto> m)),
                      codeToMessage = (codeToMessage i)(Code r \<mapsto> Message r),
                      errToCode = errs\<rparr>" and run: "indexRules post i' = Inr idx"
    by blast
  have "codeToMessage i' c = Some m" using Cons.prems(2,3) by (simp add: i')
  with Cons.IH[OF run] Cons.prems(3) show ?case by simp
qed

lemma indexRules_code_kept:
  "indexRules post i = Inr idx \<Longrightarrow> mapaccess (errToCode i) e = Some c \<Longrightarrow>
   (\<forall>r\<in>set post. e \<in> set (Errors r) \<longrightarrow> Code r = c) \<Longrightarrow>
   mapaccess (errToCode idx) e = Some c"
proof (induction post arbitrary: i)
  case Nil
  then show ?case by simp
next
  case (Cons r post)
  from indexRules_step[OF Cons.prems(1)] obtain errs i' where
    ins: "insertErrors (Code r) (Errors r) (errToCode i) = Inr errs" and
    i': "i' = \<lparr>codeToMatcher = (case Match r of None \<Rightarrow> codeToMatcher i
                                         | Some m \<Rightarrow> (codeToMatcher i)(Code r \<mapsto> m)),
                      codeToMessage = (codeToMessage i)(Code r \<mapsto> Message r),
                      errToCode = errs\<rparr>" and run: "indexRules post i' = Inr idx"
    by blast
  have "mapaccess (errToCode i') e = Some c"
    using Cons.prems(2,3) insertErrors_lookup[OF ins, of e] by (simp add: i')
  with Cons.IH[OF run] Cons.prems(3) show ?case by simp
qed

lemma indexRules_matcher_kept:
  "indexRules post i = Inr idx \<Longrightarrow> codeToMatcher i c = v \<Longrightarrow>
   (\<forall>r\<in>set post. Code r = c \<longrightarrow> Match r = None) \<Longrightarrow> codeToMatcher idx c = v"
proof (induction post arbitrary: i)
  case Nil
  then show ?case by simp
next
  case (Cons r post)
  from indexRules_step[OF Cons.prems(1)] obtain errs i' where
    i': "i' = \<lparr>codeToMatcher = (case Match r of None \<Rightarrow> codeToMatcher i
                                         | Some m \<Rightarrow> (codeToMatcher i)(Code r \<mapsto> m)),
                      codeToMessage = (codeToMessage i)(Code r \<mapsto> Message r),
                      errToCode = errs\<rparr>" and run: "indexRules post i' = Inr idx"
    by blast
  have "codeToMatcher i' c = v"
    using Cons.prems(2,3) by (auto simp: i' split: option.splits)
  with Cons.IH[OF run] Cons.prems(3) show ?case by simp
qed

lemma indexRules_split:
  "indexRules (pre @ r # post) i = Inr idx \<Longrightarrow>
   \<exists>i0 i1. indexRules pre i = Inr i0 \<and> indexRules [r] i0 = Inr i1 \<and> indexRules post i1 = Inr idx"
proof -
  assume a: "indexRules (pre @ r # post) i = Inr idx"
  then obtain i0 where i0: "indexRules pre i = Inr i0" and b: "indexRules (r # post) i0 = Inr idx"
    by (auto simp: indexRules_append split: sum.splits)
  from b have "indexRules ([r] @ post) i0 = Inr idx" by simp
  then obtain i1 where "indexRules [r] i0 = Inr i1" "indexRules post i1 = Inr idx"
    unfolding indexRules_append by (auto split: sum.splits)
  with i0 show ?thesis by blast
qed

lemma indexRules_single:
  assumes "indexRules [r] i = Inr i1"
  shows "codeToMessage i1 (Code r) = Some (Message r)"
    and "e \<in> set (Errors r) \<Longrightarrow> selfEqual e \<Longrightarrow> mapaccess (errToCode i1) e = Some (Code r)"
    and "Match r = Some f \<Longrightarrow> codeToMatcher i1 (Code r) = Some f"
  using assms insertErrors_lookup[of "Code r" "Errors r" "errToCode i" _ e]
  by (auto simp: Let_def split: sum.splits)

lemma indexRules_hashable:
  "indexRules rs i = Inr idx \<Longrightarrow> r \<in> set rs \<Longrightarrow> e \<in> set (Errors r) \<Longrightarrow> hashable e"
proof (induction rs arbitrary: i)
  case Nil
  then show ?case by simp
next
  case (Cons a rs)
  from indexRules_step[OF Cons.prems(1)] obtain errs i' where
    ins: "insertErrors (Code a) (Errors a) (errToCode i) = Inr errs" and
    run: "indexRules rs i' = Inr idx"
    by blast
  show ?case
  proof (cases "r = a")
    case True
    with ins Cons.prems(3) show ?thesis by (auto dest: insertErrors_hashable)
  next
    case False
    with Cons.prems(2) have "r \<in> set rs" by simp
    from Cons.IH[OF run this Cons.prems(3)] show ?thesis .
  qed
qed

lemma indexRules_returns:
  "(\<forall>r\<in>set rs. \<forall>e\<in>set (Errors r). hashable e) \<Longrightarrow> \<exists>idx. indexRules rs i = Inr idx"
proof (induction rs arbitrary: i)
  case Nil
  then show ?case by simp
next
  case (Cons a rs)
  then have "\<forall>e\<in>set (Errors a). hashable e" by simp
  from insertErrors_returns[OF this] obtain errs where
    "insertErrors (Code a) (Errors a) (errToCode i) = Inr errs" by blast
  moreover have "\<forall>r\<in>set rs. \<forall>e\<in>set (Errors r). hashable e" using Cons.prems by simp
  ultimately show ?case using Cons.IH by (simp add: Let_def)
qed

lemma indexRules_code_origin:
  "indexRules rs i = Inr idx \<Longrightarrow> mapaccess (errToCode idx) e = Some c \<Longrightarrow>
     mapaccess (errToCode i) e = Some c \<or> (\<exists>r\<in>set rs. e \<in> set (Errors r) \<and> Code r = c)"
proof (induction rs arbitrary: i)
  case Nil
  then show ?case by simp
next
  case (Cons a rs)
  from indexRules_step[OF Cons.prems(1)] obtain errs i' where
    ins: "insertErrors (Code a) (Errors a) (errToCode i) = Inr errs" and
    i': "i' = \<lparr>codeToMatcher = (case Match a of None \<Rightarrow> codeToMatcher i
                                         | Some m \<Rightarrow> (codeToMatcher i)(Code a \<mapsto> m)),
                      codeToMessage = (codeToMessage i)(Code a \<mapsto> Message a),
                      errToCode = errs\<rparr>" and run: "indexRules rs i' = Inr idx"
    by blast
  from Cons.IH[OF run Cons.prems(2)]
  have "mapaccess (errToCode i') e = Some c \<or>
        (\<exists>r\<in>set rs. e \<in> set (Errors r) \<and> Code r = c)" .
  then show ?case
    using insertErrors_lookup[OF ins, of e] by (auto simp: i' split: if_splits)
qed

lemma indexRules_matcher_origin:
  "indexRules rs i = Inr idx \<Longrightarrow> codeToMatcher idx c = Some f \<Longrightarrow>
     codeToMatcher i c = Some f \<or> (\<exists>r\<in>set rs. Code r = c \<and> Match r = Some f)"
proof (induction rs arbitrary: i)
  case Nil
  then show ?case by simp
next
  case (Cons a rs)
  from indexRules_step[OF Cons.prems(1)] obtain errs i' where
    i': "i' = \<lparr>codeToMatcher = (case Match a of None \<Rightarrow> codeToMatcher i
                                         | Some m \<Rightarrow> (codeToMatcher i)(Code a \<mapsto> m)),
                      codeToMessage = (codeToMessage i)(Code a \<mapsto> Message a),
                      errToCode = errs\<rparr>" and run: "indexRules rs i' = Inr idx"
    by blast
  from Cons.IH[OF run Cons.prems(2)]
  have "codeToMatcher i' c = Some f \<or> (\<exists>r\<in>set rs. Code r = c \<and> Match r = Some f)" .
  then show ?case
    by (auto simp: i' split: if_splits option.splits)
qed

lemma indexRules_wf:
  "indexRules rs i = Inr idx \<Longrightarrow> ruleIndex_wf i \<Longrightarrow> ruleIndex_wf idx"
proof (induction rs arbitrary: i)
  case Nil
  then show ?case by simp
next
  case (Cons a rs)
  from indexRules_step[OF Cons.prems(1)] obtain errs i' where
    ins: "insertErrors (Code a) (Errors a) (errToCode i) = Inr errs" and
    i': "i' = \<lparr>codeToMatcher = (case Match a of None \<Rightarrow> codeToMatcher i
                                         | Some m \<Rightarrow> (codeToMatcher i)(Code a \<mapsto> m)),
                      codeToMessage = (codeToMessage i)(Code a \<mapsto> Message a),
                      errToCode = errs\<rparr>" and run: "indexRules rs i' = Inr idx"
    by blast
  have m: "dom (codeToMatcher i') \<subseteq> dom (codeToMessage i')"
    using Cons.prems(2) by (auto simp: i' ruleIndex_wf_def split: option.splits if_splits)
  have "snd ` set errs \<subseteq> insert (Code a) (snd ` set (errToCode i))"
    using insertErrors_values[OF ins] .
  moreover have "snd ` set (errToCode i) \<subseteq> dom (codeToMessage i)"
    using Cons.prems(2) by (simp add: ruleIndex_wf_def)
  ultimately have "snd ` set (errToCode i') \<subseteq> dom (codeToMessage i')"
    by (auto simp: i')
  with m have "ruleIndex_wf i'" by (simp add: ruleIndex_wf_def)
  from Cons.IH[OF run this] show ?case .
qed

section \<open>Facts about the default encoder and the decoder\<close>

text \<open>
  The facts below about the default encoder hold for every order in which the keys of
  \<^verbatim>\<open>codeToMatcher\<close> are visited.
\<close>

lemma rangeMatchers_no_match:
  "(\<And>c f. codeToMatcher idx c = Some f \<Longrightarrow> f e = Inr False) \<Longrightarrow>
     rangeMatchers idx e order = Inr (0, [])"
proof (induction order)
  case Nil
  then show ?case by simp
next
  case (Cons c order)
  have rest: "rangeMatchers idx e order = Inr (0, [])"
    using Cons.IH Cons.prems by blast
  show ?case
  proof (cases "codeToMatcher idx c")
    case None
    with rest show ?thesis by simp
  next
    case (Some f)
    from Cons.prems[OF Some] have "f e = Inr False" .
    with Some rest show ?thesis by simp
  qed
qed

lemma rangeMatchers_returns:
  "(\<And>c f. codeToMatcher idx c = Some f \<Longrightarrow> \<exists>b. f e = Inr b) \<Longrightarrow>
     \<exists>cm. rangeMatchers idx e order = Inr cm"
proof (induction order)
  case Nil
  then show ?case by simp
next
  case (Cons c order)
  have rest: "\<exists>cm. rangeMatchers idx e order = Inr cm"
    using Cons.IH Cons.prems by blast
  show ?case
  proof (cases "codeToMatcher idx c")
    case None
    with rest show ?thesis by simp
  next
    case (Some f)
    from Cons.prems[OF Some] obtain b where "f e = Inr b" by blast
    with Some rest show ?thesis by (cases b) auto
  qed
qed

lemma rangeMatchers_code_zero:
  "(\<And>c f. codeToMatcher idx c = Some f \<Longrightarrow>
            f e = Inr False \<or> (c = 0 \<and> (\<exists>b. f e = Inr b))) \<Longrightarrow>
     \<exists>msg. rangeMatchers idx e order = Inr (0, msg)"
proof (induction order)
  case Nil
  then show ?case by simp
next
  case (Cons c order)
  have rest: "\<exists>msg. rangeMatchers idx e order = Inr (0, msg)"
    using Cons.IH Cons.prems by blast
  show ?case
  proof (cases "codeToMatcher idx c")
    case None
    with rest show ?thesis by simp
  next
    case (Some f)
    from Cons.prems[OF Some] consider "f e = Inr False" | b where "c = 0" "f e = Inr b"
      by blast
    then show ?thesis
    proof cases
      case 1
      with Some rest show ?thesis by simp
    next
      case 2
      with Some rest show ?thesis by (cases b) auto
    qed
  qed
qed

lemma Translate_passthrough:
  "encoder d (rangeOrder rt) e = Inr (0, msg) \<Longrightarrow> Translate d rt e = Inr e"
  by (simp add: Translate_def)

lemma Translate_matched:
  "encoder d (rangeOrder rt) e = Inr (code, msg) \<Longrightarrow> code \<noteq> 0 \<Longrightarrow>
     Translate d rt e =
       (case msgTranslator d msg of
          Inl p \<Rightarrow> Inl p
        | Inr translated \<Rightarrow> Inr (Matched (newAddr rt) code e translated))"
  by (simp add: Translate_def)

lemma New_no_options:
  "New rs [] = Inr d \<Longrightarrow>
     \<exists>idx. newRuleIndex rs = Inr idx \<and>
       d = \<lparr>encoder = defaultEncoder idx, msgTranslator = defaultMessageTranslator\<rparr>"
  by (auto simp: New_def newDefaultEncoder_def split: sum.splits)

lemma newDefaultEncoder_Inr:
  "newDefaultEncoder rs = Inr enc \<Longrightarrow>
     \<exists>idx. newRuleIndex rs = Inr idx \<and> enc = defaultEncoder idx"
  by (auto simp: newDefaultEncoder_def split: sum.splits)

lemma defaultEncoder_unclassified:
  assumes "newRuleIndex rs = Inr idx" and "hashable e"
    and "\<forall>r\<in>set rs. e \<notin> set (Errors r) \<and> (\<forall>f. Match r = Some f \<longrightarrow> f e = Inr False)"
  shows "defaultEncoder idx order e = Inr (0, [])"
proof -
  have "mapaccess (errToCode idx) e = None"
  proof (cases "mapaccess (errToCode idx) e")
    case None
    then show ?thesis .
  next
    case (Some c)
    from indexRules_code_origin[OF assms(1)[unfolded newRuleIndex_def] Some] assms(3)
    show ?thesis by (auto simp: mapaccess_def)
  qed
  moreover have "f e = Inr False" if "codeToMatcher idx c = Some f" for c f
    using indexRules_matcher_origin[OF assms(1)[unfolded newRuleIndex_def] that] assms(3)
    by auto
  ultimately show ?thesis
    using assms(2) rangeMatchers_no_match[of idx e order] by (simp add: defaultEncoder_def)
qed

lemmas fixture_defs =
  clientRule_def catchAllRule_def relistRule_def sharedCodeRule_def plainRule_def zeroRule_def
  errClient1_def errClient2_def errUnclassified_def sliceError_def nanError_def
  nanRule_def nanZeroRule_def neverMatch_def neverRule_def nanZeroIndex_def nanZeroDecoder_def
  relistIndex_def relistDecoder_def mapassign_def interfaceEq_def
  clientIndex_def clientDecoder_def mixedIndex_def plainIndex_def shoutDecoder_def
  zeroIndex_def zeroDecoder_def catchAllIndex_def catchAllDecoder_def
  catchAll_def unclassifiedEncoder_def shoutTranslator_def

lemmas run_defs =
  New_Translate_def New_def newDefaultEncoder_call_def newDefaultEncoder_def newRuleIndex_def
  Translate_def defaultEncoder_def defaultMessageTranslator_def messageAt_def
  Encoder_def Message_option_def Let_def mapaccess_def

text \<open>The decoders among the values above are the ones \<open>New\<close> returns.\<close>

lemma fixture_decoders:
  "New [clientRule] [] = Inr clientDecoder"
  "New [clientRule] [Message_option shoutTranslator] = Inr shoutDecoder"
  "New [zeroRule] [] = Inr zeroDecoder"
  "New [catchAllRule] [] = Inr catchAllDecoder"
  "New [nanZeroRule, neverRule] [] = Inr nanZeroDecoder"
  "New [clientRule, relistRule] [] = Inr relistDecoder"
  by (simp_all add: New_def newDefaultEncoder_def newRuleIndex_def Message_option_def Let_def
      fixture_defs)

lemma defaultEncoder_identity:
  assumes idx: "newRuleIndex (pre @ r # post) = Inr idx"
    and e: "e \<in> set (Errors r)" and self: "selfEqual e"
    and later: "\<forall>r'\<in>set post. (e \<in> set (Errors r') \<longrightarrow> Code r' = Code r) \<and>
                               (Code r' = Code r \<longrightarrow> Message r' = Message r)"
  shows "defaultEncoder idx order e = Inr (Code r, Message r)"
proof -
  from idx obtain i0 i1 where
    one: "indexRules [r] i0 = Inr i1" and rest: "indexRules post i1 = Inr idx"
    unfolding newRuleIndex_def by (blast dest: indexRules_split)
  have "hashable e"
    using indexRules_hashable[OF idx[unfolded newRuleIndex_def], of r e] e by simp
  moreover have "mapaccess (errToCode idx) e = Some (Code r)"
    using indexRules_code_kept[OF rest indexRules_single(2)[OF one e self]] later by blast
  moreover have "codeToMessage idx (Code r) = Some (Message r)"
    using indexRules_message_kept[OF rest indexRules_single(1)[OF one]] later by blast
  ultimately show ?thesis by (simp add: defaultEncoder_def messageAt_def)
qed


lemma defaultEncoder_identity_code:
  assumes idx: "newRuleIndex (pre @ r # post) = Inr idx"
    and e: "e \<in> set (Errors r)" and self: "selfEqual e"
    and later: "\<forall>r'\<in>set post. e \<in> set (Errors r') \<longrightarrow> Code r' = Code r"
  shows "defaultEncoder idx order e = Inr (Code r, messageAt (codeToMessage idx) (Code r))"
proof -
  from idx obtain i0 i1 where
    one: "indexRules [r] i0 = Inr i1" and rest: "indexRules post i1 = Inr idx"
    unfolding newRuleIndex_def by (blast dest: indexRules_split)
  have "hashable e"
    using indexRules_hashable[OF idx[unfolded newRuleIndex_def], of r e] e by simp
  moreover have "mapaccess (errToCode idx) e = Some (Code r)"
    using indexRules_code_kept[OF rest indexRules_single(2)[OF one e self] later] .
  ultimately show ?thesis by (simp add: defaultEncoder_def)
qed

lemma wrapsOrIs_refl: "wrapsOrIs e e"
  by (cases e) simp_all

lemma newRuleIndex_returns_iff:
  "(\<exists>idx. newRuleIndex rs = Inr idx) \<longleftrightarrow> (\<forall>r\<in>set rs. \<forall>e\<in>set (Errors r). hashable e)"
  unfolding newRuleIndex_def
  using indexRules_returns indexRules_hashable by blast

lemma New_returns_iff:
  "(\<exists>d. New rs options = Inr d) \<longleftrightarrow> (\<forall>r\<in>set rs. \<forall>e\<in>set (Errors r). hashable e)"
proof -
  have "(\<exists>d. New rs options = Inr d) \<longleftrightarrow> (\<exists>idx. newRuleIndex rs = Inr idx)"
    by (auto simp: New_def newDefaultEncoder_def split: sum.splits)
  then show ?thesis by (simp add: newRuleIndex_returns_iff)
qed

text \<open>
  The pass-through path of the default decoder: an error that can be hashed, that no rule
  lists and on which every predicate of the rules returns false comes back unchanged.
\<close>

lemma default_decoder_passthrough:
  assumes "New rs [] = Inr d" and "hashable e"
    and "\<forall>r\<in>set rs. e \<notin> set (Errors r) \<and> (\<forall>f. Match r = Some f \<longrightarrow> f e = Inr False)"
  shows "Translate d rt e = Inr e"
proof -
  from New_no_options[OF assms(1)] obtain idx where
    idx: "newRuleIndex rs = Inr idx" and
    d: "d = \<lparr>encoder = defaultEncoder idx, msgTranslator = defaultMessageTranslator\<rparr>"
    by blast
  from defaultEncoder_unclassified[OF idx assms(2,3)]
  have "encoder d (rangeOrder rt) e = Inr (0, [])" by (simp add: d)
  then show ?thesis by (rule Translate_passthrough)
qed

text \<open>An error that cannot be hashed stops every decoder that keeps the default encoder.\<close>

lemma default_decoder_unhashable:
  assumes "newDefaultEncoder rs = Inr (encoder d)" and "\<not> hashable e"
  shows "Translate d rt e = Inl HashOfUnhashableType"
proof -
  from newDefaultEncoder_Inr[OF assms(1)] obtain idx where "encoder d = defaultEncoder idx"
    by blast
  with assms(2) show ?thesis by (simp add: Translate_def defaultEncoder_def)
qed

text \<open>
  A known error that is not equal to itself is stored by the compilation and never found
  by the lookup of the default encoder, which goes on to the predicates.
\<close>

lemma defaultEncoder_not_selfEqual:
  "hashable e \<Longrightarrow> \<not> selfEqual e \<Longrightarrow> defaultEncoder idx order e = rangeMatchers idx e order"
proof -
  assume h: "hashable e" and n: "\<not> selfEqual e"
  have "mapaccess (errToCode idx) e = None"
    using mapaccess_Some(1)[of "errToCode idx" e] n by (cases "mapaccess (errToCode idx) e") auto
  with h show ?thesis by (simp add: defaultEncoder_def)
qed

lemma nan_known_error_is_not_found:
  "New_Translate [nanRule] [] \<lparr>rangeOrder = [], newAddr = 0\<rparr> nanError = Inr nanError"
  "New_Translate [nanRule, catchAllRule] [] \<lparr>rangeOrder = [1000], newAddr = 0\<rparr> nanError =
     Inr (Matched 0 1000 nanError ''error.catchall'')"
  by (simp_all add: run_defs fixture_defs)

section \<open>The claims\<close>

text \<open>
  Claim C1: an error that no rule lists and no predicate matches comes back from
  \<open>Translate\<close> unchanged. Evaluated here at an error whose dynamic type is not
  comparable, on the decoder of no rules and on the decoder of \<open>[clientRule]\<close>: no rule
  lists it and there is no predicate, yet the lookup \<^verbatim>\<open>idx.errToCode[err]\<close> of the
  default encoder panics, and so does \<open>Translate\<close>.
\<close>

theorem translate_unhashable_error_panics:
  "New_Translate [] [] rt (Foreign Uncomparable ident text) = Inl HashOfUnhashableType \<and>
   New_Translate [clientRule] [] rt sliceError = Inl HashOfUnhashableType"
  by (simp add: run_defs fixture_defs)

text \<open>
  Claim C2, as stated, at the rules \<open>[clientRule, relistRule]\<close>: \<open>clientRule\<close> has a code
  other than 0 and the known errors \<open>errClient1\<close> and \<open>errClient2\<close>, and
  \<open>Translate\<close> of \<open>errClient1\<close> yields the code and the message of \<open>relistRule\<close>, which
  lists \<open>errClient1\<close> later.
\<close>

theorem known_errors_relisted_counterexample:
  "clientRule \<in> set [clientRule, relistRule] \<and> Code clientRule \<noteq> 0 \<and>
   Errors clientRule = [errClient1, errClient2] \<and>
   New_Translate [clientRule, relistRule] [] \<lparr>rangeOrder = [], newAddr = 0\<rparr> errClient1 =
     Inr (Matched 0 1002 errClient1 ''error.relist'') \<and>
   matchedError_Code (Matched 0 1002 errClient1 ''error.relist'') \<noteq> Some (Code clientRule) \<and>
   Error (Matched 0 1002 errClient1 ''error.relist'') \<noteq> Inr (Message clientRule)"
  by (simp add: run_defs fixture_defs)

text \<open>
  Claim C2, amended: for a rule \<open>r\<close> with a code other than 0 and the known errors
  \<open>e1\<close> and \<open>e2\<close>, in the rule set of a decoder built with the default encoder and the
  default translator, and for each \<open>e\<close> of \<open>e1\<close> and \<open>e2\<close> that is equal to itself
  under \<^verbatim>\<open>==\<close> (it holds no NaN): \<open>Translate\<close> of \<open>e\<close> yields a classified error
  with the code and the message of \<open>r\<close>, provided that no rule after \<open>r\<close> lists \<open>e\<close>
  under another code or records another message under the code of \<open>r\<close>.
\<close>

theorem known_errors_classified:
  assumes d: "New (pre @ r # post) [] = Inr d"
    and code: "Code r \<noteq> 0"
    and errs: "Errors r = [e1, e2]"
  shows "\<forall>e\<in>{e1, e2}.
           selfEqual e \<and>
           (\<forall>r'\<in>set post. (e \<in> set (Errors r') \<longrightarrow> Code r' = Code r) \<and>
                            (Code r' = Code r \<longrightarrow> Message r' = Message r)) \<longrightarrow>
           (\<exists>res. Translate d rt e = Inr res \<and>
                  res = Matched (newAddr rt) (Code r) e (Message r) \<and>
                  matchedError_Code res = Some (Code r) \<and> Error res = Inr (Message r))"
proof (intro ballI impI)
  fix e
  assume e: "e \<in> {e1, e2}"
    and hyp: "selfEqual e \<and>
           (\<forall>r'\<in>set post. (e \<in> set (Errors r') \<longrightarrow> Code r' = Code r) \<and>
                            (Code r' = Code r \<longrightarrow> Message r' = Message r))"
  from New_no_options[OF d] obtain idx where
    idx: "newRuleIndex (pre @ r # post) = Inr idx" and
    dd: "d = \<lparr>encoder = defaultEncoder idx, msgTranslator = defaultMessageTranslator\<rparr>"
    by blast
  have mem: "e \<in> set (Errors r)" using e errs by auto
  from hyp have self: "selfEqual e"
    and later: "\<forall>r'\<in>set post. (e \<in> set (Errors r') \<longrightarrow> Code r' = Code r) \<and>
                               (Code r' = Code r \<longrightarrow> Message r' = Message r)"
    by blast+
  from defaultEncoder_identity[OF idx mem self later]
  have "encoder d (rangeOrder rt) e = Inr (Code r, Message r)" by (simp add: dd)
  from Translate_matched[OF this code]
  have "Translate d rt e = Inr (Matched (newAddr rt) (Code r) e (Message r))"
    by (simp add: dd defaultMessageTranslator_def)
  then show "\<exists>res. Translate d rt e = Inr res \<and>
           res = Matched (newAddr rt) (Code r) e (Message r) \<and>
           matchedError_Code res = Some (Code r) \<and> Error res = Inr (Message r)"
    by simp
qed

text \<open>
  The amended claim C2 at \<open>[clientRule, relistRule]\<close>, where \<open>errClient1\<close> is listed again
  and \<open>errClient2\<close> is still classified by \<open>clientRule\<close>, and at
  \<open>[clientRule, catchAllRule]\<close> for \<open>errClient1\<close>.
\<close>

theorem known_errors_classified_witness:
  "New ([] @ clientRule # [relistRule]) [] = Inr relistDecoder \<and>
   New ([] @ clientRule # [catchAllRule]) [] =
     Inr \<lparr>encoder = defaultEncoder mixedIndex, msgTranslator = defaultMessageTranslator\<rparr> \<and>
   Code clientRule \<noteq> 0 \<and> Errors clientRule = [errClient1, errClient2] \<and>
   selfEqual errClient1 \<and> selfEqual errClient2 \<and>
   Translate relistDecoder \<lparr>rangeOrder = [], newAddr = 0\<rparr> errClient2 =
     Inr (Matched 0 1001 errClient2 ''error.client'') \<and>
   Translate \<lparr>encoder = defaultEncoder mixedIndex, msgTranslator = defaultMessageTranslator\<rparr>
       \<lparr>rangeOrder = [1000], newAddr = 0\<rparr> errClient1 =
     Inr (Matched 0 1001 errClient1 ''error.client'')"
proof -
  have n1: "New ([] @ clientRule # [relistRule]) [] = Inr relistDecoder"
    using fixture_decoders(6) by simp
  have n2: "New ([] @ clientRule # [catchAllRule]) [] =
     Inr \<lparr>encoder = defaultEncoder mixedIndex, msgTranslator = defaultMessageTranslator\<rparr>"
    by (simp add: New_def newDefaultEncoder_def newRuleIndex_def Let_def fixture_defs)
  have c: "Code clientRule \<noteq> 0" by (simp add: clientRule_def)
  have e: "Errors clientRule = [errClient1, errClient2]" by (simp add: clientRule_def)
  have s: "selfEqual errClient1" "selfEqual errClient2"
    by (simp_all add: errClient1_def errClient2_def)
  have l1: "\<forall>r'\<in>set [relistRule].
        (errClient2 \<in> set (Errors r') \<longrightarrow> Code r' = Code clientRule) \<and>
        (Code r' = Code clientRule \<longrightarrow> Message r' = Message clientRule)"
    by (simp add: clientRule_def relistRule_def errClient1_def errClient2_def)
  have l2: "\<forall>r'\<in>set [catchAllRule].
        (errClient1 \<in> set (Errors r') \<longrightarrow> Code r' = Code clientRule) \<and>
        (Code r' = Code clientRule \<longrightarrow> Message r' = Message clientRule)"
    by (simp add: clientRule_def catchAllRule_def)
  from known_errors_classified[OF n1 c e, of "\<lparr>rangeOrder = [], newAddr = 0\<rparr>"] s l1
  have t1: "Translate relistDecoder \<lparr>rangeOrder = [], newAddr = 0\<rparr> errClient2 =
     Inr (Matched 0 1001 errClient2 ''error.client'')"
    by (simp add: clientRule_def)
  from known_errors_classified[OF n2 c e, of "\<lparr>rangeOrder = [1000], newAddr = 0\<rparr>"] s l2
  have t2: "Translate
       \<lparr>encoder = defaultEncoder mixedIndex, msgTranslator = defaultMessageTranslator\<rparr>
       \<lparr>rangeOrder = [1000], newAddr = 0\<rparr> errClient1 =
     Inr (Matched 0 1001 errClient1 ''error.client'')"
    by (simp add: clientRule_def)
  from n1 n2 c e s t1 t2 show ?thesis by simp
qed

text \<open>
  Claim C3, as stated, at the rules \<open>[clientRule, sharedCodeRule]\<close>: \<open>errClient1\<close> is a
  known error of \<open>clientRule\<close> and satisfies the predicate of \<open>sharedCodeRule\<close>, and the
  default encoder returns the message of the predicate rule, which was recorded later
  under the same code.
\<close>

theorem identity_shared_code_counterexample:
  "errClient1 \<in> set (Errors clientRule) \<and>
   Match sharedCodeRule = Some catchAll \<and> catchAll errClient1 = Inr True \<and>
   newDefaultEncoder_call [clientRule, sharedCodeRule] [1001] errClient1 =
     Inr (Code clientRule, Message sharedCodeRule) \<and>
   Message sharedCodeRule \<noteq> Message clientRule"
  by (simp add: run_defs fixture_defs)

text \<open>
  Claim C3, amended: the identity lookup comes before the predicates. For an error \<open>e\<close>
  among the known errors of a rule \<open>r\<close> that is equal to itself under \<^verbatim>\<open>==\<close> (it
  holds no NaN), whatever the predicates of the rules return on \<open>e\<close> and in whatever
  order they would be visited, the default encoder returns the code of
  \<open>r\<close>, provided that no rule after \<open>r\<close> lists \<open>e\<close> under another code; and it returns
  the message of \<open>r\<close>, provided also that no rule after \<open>r\<close> records another message
  under the code of \<open>r\<close>.
\<close>

theorem identity_before_predicates:
  assumes enc: "newDefaultEncoder (pre @ r # post) = Inr enc"
    and e: "e \<in> set (Errors r)" and self: "selfEqual e"
    and relist: "\<forall>r'\<in>set post. e \<in> set (Errors r') \<longrightarrow> Code r' = Code r"
  shows "(\<exists>msg. enc order e = Inr (Code r, msg)) \<and>
         ((\<forall>r'\<in>set post. Code r' = Code r \<longrightarrow> Message r' = Message r) \<longrightarrow>
            enc order e = Inr (Code r, Message r))"
proof -
  from newDefaultEncoder_Inr[OF enc] obtain idx where
    idx: "newRuleIndex (pre @ r # post) = Inr idx" and ed: "enc = defaultEncoder idx"
    by blast
  have "\<exists>msg. enc order e = Inr (Code r, msg)"
    using defaultEncoder_identity_code[OF idx e self relist] by (simp add: ed)
  moreover have "enc order e = Inr (Code r, Message r)"
    if "\<forall>r'\<in>set post. Code r' = Code r \<longrightarrow> Message r' = Message r"
    using defaultEncoder_identity[OF idx e self] relist that by (simp add: ed)
  ultimately show ?thesis by blast
qed

text \<open>
  The amended claim C3 at \<open>[clientRule, catchAllRule]\<close>: the predicate of \<open>catchAllRule\<close>
  matches \<open>errClient1\<close>, and the encoder returns the code and the message of
  \<open>clientRule\<close>.
\<close>

theorem identity_before_predicates_witness:
  "newDefaultEncoder ([] @ clientRule # [catchAllRule]) = Inr (defaultEncoder mixedIndex) \<and>
   errClient1 \<in> set (Errors clientRule) \<and> selfEqual errClient1 \<and>
   Match catchAllRule = Some catchAll \<and> catchAll errClient1 = Inr True \<and>
   defaultEncoder mixedIndex [1000] errClient1 = Inr (1001, ''error.client'')"
proof -
  have n: "newDefaultEncoder ([] @ clientRule # [catchAllRule]) =
             Inr (defaultEncoder mixedIndex)"
    by (simp add: newDefaultEncoder_def newRuleIndex_def Let_def fixture_defs)
  have e: "errClient1 \<in> set (Errors clientRule)" by (simp add: clientRule_def)
  have s: "selfEqual errClient1" by (simp add: errClient1_def)
  have l: "\<forall>r'\<in>set [catchAllRule]. errClient1 \<in> set (Errors r') \<longrightarrow> Code r' = Code clientRule"
    by (simp add: catchAllRule_def)
  have m: "\<forall>r'\<in>set [catchAllRule]. Code r' = Code clientRule \<longrightarrow> Message r' = Message clientRule"
    by (simp add: catchAllRule_def clientRule_def)
  from identity_before_predicates[OF n e s l, of "[1000]"] m n e s
  show ?thesis by (simp add: clientRule_def catchAllRule_def catchAll_def)
qed

text \<open>
  Claim C4: when the encoder of the decoder returns a code other than 0 on \<open>e\<close>, every
  value \<open>Translate\<close> returns on \<open>e\<close> is a classified error with that code whose
  \<open>Unwrap\<close> is \<open>e\<close> itself, so that the check "is it, or does it wrap, \<open>e\<close>" succeeds
  on it; and \<open>Translate\<close> returns such a value whenever the translator returns.
\<close>

theorem unwrap_fidelity:
  assumes enc: "encoder d (rangeOrder rt) e = Inr (code, msg)" and code: "code \<noteq> 0"
  shows "(\<forall>res. Translate d rt e = Inr res \<longrightarrow>
            matchedError_Code res = Some code \<and> matchedError_Unwrap res = Some e \<and>
            wrapsOrIs res e) \<and>
         (\<forall>translated. msgTranslator d msg = Inr translated \<longrightarrow>
            Translate d rt e = Inr (Matched (newAddr rt) code e translated))"
  using Translate_matched[OF enc code] by (auto simp: wrapsOrIs_refl split: sum.splits)

text \<open>Claim C4 at \<open>clientDecoder\<close> and \<open>errClient1\<close>.\<close>

theorem unwrap_fidelity_witness:
  "encoder clientDecoder (rangeOrder \<lparr>rangeOrder = [], newAddr = 0\<rparr>) errClient1 =
     Inr (1001, ''error.client'') \<and>
   msgTranslator clientDecoder ''error.client'' = Inr ''error.client'' \<and>
   Translate clientDecoder \<lparr>rangeOrder = [], newAddr = 0\<rparr> errClient1 =
     Inr (Matched 0 1001 errClient1 ''error.client'') \<and>
   matchedError_Unwrap (Matched 0 1001 errClient1 ''error.client'') = Some errClient1 \<and>
   wrapsOrIs (Matched 0 1001 errClient1 ''error.client'') errClient1"
proof -
  have enc: "encoder clientDecoder (rangeOrder \<lparr>rangeOrder = [], newAddr = 0\<rparr>) errClient1 =
     Inr (1001, ''error.client'')"
    by (simp add: run_defs fixture_defs)
  have code: "(1001::int) \<noteq> 0" by simp
  have t: "msgTranslator clientDecoder ''error.client'' = Inr ''error.client''"
    by (simp add: clientDecoder_def defaultMessageTranslator_def)
  from unwrap_fidelity[OF enc code] enc t show ?thesis by (simp add: wrapsOrIs_refl)
qed

text \<open>
  Claim C5: the decoder of \<open>New R [Encoder f]\<close> is the decoder whose encoder is \<open>f\<close>
  and whose translator is the default one, whatever \<open>R\<close> is: it classifies every error
  as \<open>f\<close> does, and \<open>Translate\<close> gives the same result as on the decoder built from any
  other rule set with the same option.
\<close>

theorem encoder_option_replaces:
  assumes d: "New R [Encoder f] = Inr d"
  shows "d = \<lparr>encoder = f, msgTranslator = defaultMessageTranslator\<rparr> \<and>
         encoder d order e = f order e \<and>
         (\<forall>R' d'. New R' [Encoder f] = Inr d' \<longrightarrow> Translate d' rt e = Translate d rt e)"
proof -
  have *: "d' = \<lparr>encoder = f, msgTranslator = defaultMessageTranslator\<rparr>"
    if "New R' [Encoder f] = Inr d'" for R' and d' :: "'a Decoder"
    using that by (auto simp: New_def Encoder_def split: sum.splits)
  from *[OF d] have "d = \<lparr>encoder = f, msgTranslator = defaultMessageTranslator\<rparr>" .
  moreover from this have "encoder d order e = f order e" by simp
  moreover have "\<forall>R' d'. New R' [Encoder f] = Inr d' \<longrightarrow> Translate d' rt e = Translate d rt e"
    using * d by blast
  ultimately show ?thesis by blast
qed

text \<open>
  Claim C5 at \<open>[clientRule]\<close> and the encoder that classifies nothing: \<open>errClient1\<close>,
  which the rule lists, comes back unchanged, as from the decoder of no rules.
\<close>

theorem encoder_option_replaces_witness:
  "New [clientRule] [Encoder unclassifiedEncoder] =
     Inr \<lparr>encoder = unclassifiedEncoder, msgTranslator = defaultMessageTranslator\<rparr> \<and>
   New [] [Encoder unclassifiedEncoder] =
     Inr \<lparr>encoder = unclassifiedEncoder, msgTranslator = defaultMessageTranslator\<rparr> \<and>
   Translate \<lparr>encoder = unclassifiedEncoder, msgTranslator = defaultMessageTranslator\<rparr>
     \<lparr>rangeOrder = [], newAddr = 0\<rparr> errClient1 = Inr errClient1"
proof -
  have n: "New [clientRule] [Encoder unclassifiedEncoder] =
     Inr \<lparr>encoder = unclassifiedEncoder, msgTranslator = defaultMessageTranslator\<rparr>"
    by (simp add: New_def newDefaultEncoder_def newRuleIndex_def Encoder_def Let_def fixture_defs)
  from encoder_option_replaces[OF n, of "[]" errClient1 "\<lparr>rangeOrder = [], newAddr = 0\<rparr>"] n
  show ?thesis
    by (simp add: run_defs unclassifiedEncoder_def)
qed

text \<open>
  Claim C6: when the encoder returns the code 0 on \<open>e\<close>, \<open>Translate\<close> returns \<open>e\<close>
  itself, with the message of \<open>e\<close>, whatever the translator is (also one that changes
  every message, or panics); when the encoder returns another code and a message, the
  message of the classified error is what the translator returns on that message.
\<close>

theorem translator_only_on_matches:
  "(encoder d (rangeOrder rt) e = Inr (0, msg) \<longrightarrow>
      (\<forall>t. \<exists>res. Translate (d\<lparr>msgTranslator := t\<rparr>) rt e = Inr res \<and> res = e \<and>
                 Error res = Error e)) \<and>
   (encoder d (rangeOrder rt) e = Inr (code, msg) \<and> code \<noteq> 0 \<and>
    msgTranslator d msg = Inr translated \<longrightarrow>
      (\<exists>res. Translate d rt e = Inr res \<and> matchedError_Code res = Some code \<and>
             Error res = Inr translated))"
  by (simp add: Translate_def)

text \<open>
  Claim C6 at \<open>shoutDecoder\<close>: \<open>errUnclassified\<close> keeps its message, and the message of
  \<open>clientRule\<close> is translated.
\<close>

theorem translator_only_on_matches_witness:
  "encoder shoutDecoder (rangeOrder \<lparr>rangeOrder = [], newAddr = 0\<rparr>) errUnclassified = Inr (0, []) \<and>
   Translate shoutDecoder \<lparr>rangeOrder = [], newAddr = 0\<rparr> errUnclassified = Inr errUnclassified \<and>
   Error errUnclassified = Inr ''unclassified error'' \<and>
   encoder shoutDecoder (rangeOrder \<lparr>rangeOrder = [], newAddr = 0\<rparr>) errClient1 =
     Inr (1001, ''error.client'') \<and>
   msgTranslator shoutDecoder ''error.client'' = Inr ''error.client!'' \<and>
   Translate shoutDecoder \<lparr>rangeOrder = [], newAddr = 0\<rparr> errClient1 =
     Inr (Matched 0 1001 errClient1 ''error.client!'')"
proof -
  have a: "encoder shoutDecoder (rangeOrder \<lparr>rangeOrder = [], newAddr = 0\<rparr>) errUnclassified
             = Inr (0, [])"
    by (simp add: run_defs fixture_defs)
  have b: "encoder shoutDecoder (rangeOrder \<lparr>rangeOrder = [], newAddr = 0\<rparr>) errClient1 =
     Inr (1001, ''error.client'')"
    by (simp add: run_defs fixture_defs)
  have c: "msgTranslator shoutDecoder ''error.client'' = Inr ''error.client!''"
    by (simp add: shoutDecoder_def shoutTranslator_def)
  from translator_only_on_matches[of shoutDecoder "\<lparr>rangeOrder = [], newAddr = 0\<rparr>"
      errUnclassified "[]" 0 "[]"]
    translator_only_on_matches[of shoutDecoder "\<lparr>rangeOrder = [], newAddr = 0\<rparr>"
      errClient1 "''error.client''" 1001 "''error.client!''"] a b c
  show ?thesis
    by (simp add: run_defs fixture_defs)
qed

text \<open>
  Claim C7, as stated, at the rules \<open>[catchAllRule, plainRule]\<close>, which share a code: the
  message stored under the code is that of \<open>plainRule\<close>, the last rule, but the predicate
  stored under it is that of \<open>catchAllRule\<close>, while \<open>plainRule\<close> has none.
\<close>

theorem last_write_predicate_counterexample:
  "newRuleIndex [catchAllRule, plainRule] = Inr plainIndex \<and>
   Code catchAllRule = Code plainRule \<and>
   codeToMessage plainIndex (Code plainRule) = Some (Message plainRule) \<and>
   Match plainRule = None \<and>
   codeToMatcher plainIndex (Code plainRule) = Some catchAll \<and>
   codeToMatcher plainIndex (Code plainRule) \<noteq> Match plainRule"
  by (simp add: newRuleIndex_def Let_def fixture_defs)

text \<open>
  Claim C7, amended: after compilation, the message stored under a code is that of the
  last rule in input order bearing the code, and the predicate stored under it is that of
  the last rule bearing the code that declares a predicate (a later rule without a
  predicate leaves it in place); when no rule bearing the code declares a predicate, none
  is stored.
\<close>

theorem last_write_wins:
  assumes idx: "newRuleIndex (pre @ r # post) = Inr idx"
  shows "((\<forall>r'\<in>set post. Code r' \<noteq> Code r) \<longrightarrow>
            codeToMessage idx (Code r) = Some (Message r)) \<and>
         (\<forall>f. Match r = Some f \<and> (\<forall>r'\<in>set post. Code r' = Code r \<longrightarrow> Match r' = None) \<longrightarrow>
            codeToMatcher idx (Code r) = Some f) \<and>
         ((\<forall>r'\<in>set (pre @ r # post). Code r' = c \<longrightarrow> Match r' = None) \<longrightarrow>
            codeToMatcher idx c = None)"
proof -
  from idx obtain i0 i1 where
    one: "indexRules [r] i0 = Inr i1" and rest: "indexRules post i1 = Inr idx"
    unfolding newRuleIndex_def by (blast dest: indexRules_split)
  have msg: "codeToMessage idx (Code r) = Some (Message r)"
    if "\<forall>r'\<in>set post. Code r' \<noteq> Code r"
    using indexRules_message_kept[OF rest indexRules_single(1)[OF one]] that by blast
  have pred: "codeToMatcher idx (Code r) = Some f"
    if "Match r = Some f" and "\<forall>r'\<in>set post. Code r' = Code r \<longrightarrow> Match r' = None" for f
    using indexRules_matcher_kept[OF rest indexRules_single(3)[OF one that(1)] that(2)] .
  have none: "codeToMatcher idx c = None"
    if "\<forall>r'\<in>set (pre @ r # post). Code r' = c \<longrightarrow> Match r' = None"
  proof (cases "codeToMatcher idx c")
    case None
    then show ?thesis .
  next
    case (Some f)
    from indexRules_matcher_origin[OF idx[unfolded newRuleIndex_def] Some] that
    show ?thesis by auto
  qed
  from msg pred none show ?thesis by blast
qed

text \<open>The amended claim C7 at \<open>[catchAllRule, plainRule]\<close>.\<close>

theorem last_write_wins_witness:
  "newRuleIndex ([] @ catchAllRule # [plainRule]) = Inr plainIndex \<and>
   newRuleIndex ([catchAllRule] @ plainRule # []) = Inr plainIndex \<and>
   Match catchAllRule = Some catchAll \<and> Match plainRule = None \<and>
   Code plainRule = Code catchAllRule \<and>
   codeToMessage plainIndex (Code plainRule) = Some (Message plainRule) \<and>
   codeToMatcher plainIndex (Code catchAllRule) = Some catchAll \<and>
   codeToMatcher plainIndex 1001 = None"
proof -
  have a: "newRuleIndex ([] @ catchAllRule # [plainRule]) = Inr plainIndex"
    by (simp add: newRuleIndex_def Let_def fixture_defs)
  have b: "newRuleIndex ([catchAllRule] @ plainRule # []) = Inr plainIndex"
    by (simp add: newRuleIndex_def Let_def fixture_defs)
  have m: "Match catchAllRule = Some catchAll" "Match plainRule = None"
    "Code plainRule = Code catchAllRule"
    by (simp_all add: catchAllRule_def plainRule_def)
  from last_write_wins[OF a, of 1001] last_write_wins[OF b, of 1001] a b m
  show ?thesis by (simp add: catchAllRule_def plainRule_def)
qed

text \<open>
  Claim C8: every index that the compilation of a rule set produces satisfies
  \<open>ruleIndex_wf\<close>: each code with a predicate, and each code some error value is mapped
  to, has a message. The compilation produces an index when every known error of the
  rules can be hashed.
\<close>

theorem index_invariant:
  "((\<forall>r\<in>set rs. \<forall>e\<in>set (Errors r). hashable e) \<longrightarrow> (\<exists>idx. newRuleIndex rs = Inr idx)) \<and>
   (\<forall>idx. newRuleIndex rs = Inr idx \<longrightarrow> ruleIndex_wf idx)"
proof -
  have "ruleIndex_wf \<lparr>codeToMatcher = Map.empty, codeToMessage = Map.empty,
                      errToCode = ([] :: 'a errorMap)\<rparr>"
    by (simp add: ruleIndex_wf_def)
  then have "\<forall>idx. newRuleIndex rs = Inr idx \<longrightarrow> ruleIndex_wf idx"
    unfolding newRuleIndex_def by (blast intro: indexRules_wf)
  with newRuleIndex_returns_iff[of rs] show ?thesis by blast
qed

text \<open>Claim C8 at \<open>[clientRule, catchAllRule]\<close>.\<close>

theorem index_invariant_witness:
  "newRuleIndex [clientRule, catchAllRule] = Inr mixedIndex \<and> ruleIndex_wf mixedIndex \<and>
   dom (codeToMatcher mixedIndex) = {1000} \<and> dom (codeToMessage mixedIndex) = {1000, 1001}"
proof -
  have a: "newRuleIndex [clientRule, catchAllRule] = Inr mixedIndex"
    by (simp add: newRuleIndex_def Let_def fixture_defs)
  from index_invariant[of "[clientRule, catchAllRule]"] a
  show ?thesis by (auto simp: mixedIndex_def)
qed

text \<open>
  Claim C9: \<open>Translate\<close> returns on the nil error when the encoder of the decoder returns
  on it and the translator returns on the message; in particular for a decoder with the
  default encoder of a rule set whose predicates all return on the nil error, and a
  translator that returns on every message.
\<close>

theorem translate_nil_returns:
  "(encoder d (rangeOrder rt) NilError = Inr (code, msg) \<and> (\<exists>t. msgTranslator d msg = Inr t) \<longrightarrow>
      (\<exists>res. Translate d rt NilError = Inr res)) \<and>
   (newDefaultEncoder rs = Inr (encoder d) \<and>
    (\<forall>r\<in>set rs. \<forall>f. Match r = Some f \<longrightarrow> (\<exists>b. f NilError = Inr b)) \<and>
    (\<forall>m. \<exists>t. msgTranslator d m = Inr t) \<longrightarrow>
      (\<exists>res. Translate d rt NilError = Inr res))"
proof -
  have general: "\<exists>res. Translate d rt NilError = Inr res"
    if "encoder d (rangeOrder rt) NilError = Inr (c, m)" and "\<exists>t. msgTranslator d m = Inr t"
    for c m
    using that by (auto simp: Translate_def)
  have "\<exists>res. Translate d rt NilError = Inr res"
    if enc: "newDefaultEncoder rs = Inr (encoder d)"
      and total: "\<forall>r\<in>set rs. \<forall>f. Match r = Some f \<longrightarrow> (\<exists>b. f NilError = Inr b)"
      and tr: "\<forall>m. \<exists>t. msgTranslator d m = Inr t"
  proof -
    from newDefaultEncoder_Inr[OF enc] obtain idx where
      idx: "newRuleIndex rs = Inr idx" and ed: "encoder d = defaultEncoder idx"
      by blast
    have m: "\<exists>b. f NilError = Inr b" if "codeToMatcher idx c = Some f" for c f
      using indexRules_matcher_origin[OF idx[unfolded newRuleIndex_def] that] total by auto
    have "\<exists>cm. rangeMatchers idx NilError (rangeOrder rt) = Inr cm"
      by (rule rangeMatchers_returns) (rule m, assumption)
    then have "\<exists>cm. encoder d (rangeOrder rt) NilError = Inr cm"
      by (auto simp: ed defaultEncoder_def split: option.splits)
    then obtain c m where "encoder d (rangeOrder rt) NilError = Inr (c, m)" by force
    from general[OF this] tr show ?thesis by blast
  qed
  with general show ?thesis by blast
qed

text \<open>
  Claim C9 at \<open>clientDecoder\<close>, which returns the nil error unchanged, and at
  \<open>catchAllDecoder\<close>, whose predicate matches it.
\<close>

theorem translate_nil_returns_witness:
  "encoder clientDecoder (rangeOrder \<lparr>rangeOrder = [], newAddr = 0\<rparr>) NilError = Inr (0, []) \<and>
   Translate clientDecoder \<lparr>rangeOrder = [], newAddr = 0\<rparr> NilError = Inr NilError \<and>
   newDefaultEncoder [catchAllRule] = Inr (encoder catchAllDecoder) \<and>
   catchAll (NilError :: nat error) = Inr True \<and>
   Translate catchAllDecoder \<lparr>rangeOrder = [1000], newAddr = 0\<rparr> NilError =
     Inr (Matched 0 1000 NilError ''error.catchall'')"
proof -
  have a: "encoder clientDecoder (rangeOrder \<lparr>rangeOrder = [], newAddr = 0\<rparr>) NilError
             = Inr (0, [])"
    by (simp add: run_defs fixture_defs)
  have b: "newDefaultEncoder [catchAllRule] = Inr (encoder catchAllDecoder)"
    by (simp add: newDefaultEncoder_def newRuleIndex_def Let_def fixture_defs)
  have c: "\<forall>r\<in>set [catchAllRule]. \<forall>f. Match r = Some f \<longrightarrow> (\<exists>b. f NilError = Inr b)"
    by (auto simp: catchAllRule_def catchAll_def)
  have t: "\<forall>m. \<exists>t. msgTranslator catchAllDecoder m = Inr t"
    "\<exists>t. msgTranslator clientDecoder [] = Inr t"
    by (simp_all add: catchAllDecoder_def clientDecoder_def defaultMessageTranslator_def)
  from translate_nil_returns[of clientDecoder "\<lparr>rangeOrder = [], newAddr = 0\<rparr>" 0 "[]"
      "[catchAllRule]"]
    translate_nil_returns[of catchAllDecoder "\<lparr>rangeOrder = [1000], newAddr = 0\<rparr>" 0 "[]"
      "[catchAllRule]"] a b c t
  show ?thesis by (simp add: run_defs fixture_defs)
qed

text \<open>
  Claim C10: for an error \<open>e\<close> among the known errors of a rule \<open>r\<close> with the code 0,
  when no other rule lists \<open>e\<close> or has a predicate that matches \<open>e\<close>, and the predicate of
  \<open>r\<close> itself, if it has one, returns on \<open>e\<close>, the default encoder returns the code 0 on
  \<open>e\<close> and \<open>Translate\<close> returns \<open>e\<close> unchanged; this holds also for an \<open>e\<close> that
  the lookup does not find. When \<open>e\<close> is equal to itself under \<^verbatim>\<open>==\<close>, the same holds
  whatever the predicates are, as soon as every rule that lists \<open>e\<close> has the code 0.
\<close>

theorem zero_code_rule_passes_through:
  assumes enc: "newDefaultEncoder rs = Inr (encoder d)"
    and r: "r \<in> set rs" and zero: "Code r = 0" and e: "e \<in> set (Errors r)"
  shows "((\<forall>r'\<in>set rs. r' \<noteq> r \<longrightarrow>
             e \<notin> set (Errors r') \<and> (\<forall>f. Match r' = Some f \<longrightarrow> f e = Inr False)) \<and>
          (\<forall>f. Match r = Some f \<longrightarrow> (\<exists>b. f e = Inr b)) \<longrightarrow>
            (\<exists>msg. encoder d order e = Inr (0, msg)) \<and> Translate d rt e = Inr e) \<and>
         (selfEqual e \<and> (\<forall>r'\<in>set rs. e \<in> set (Errors r') \<longrightarrow> Code r' = 0) \<longrightarrow>
            (\<exists>msg. encoder d order e = Inr (0, msg)) \<and> Translate d rt e = Inr e)"
proof -
  from newDefaultEncoder_Inr[OF enc] obtain idx where
    idx: "newRuleIndex rs = Inr idx" and ed: "encoder d = defaultEncoder idx"
    by blast
  have h: "hashable e"
    using indexRules_hashable[OF idx[unfolded newRuleIndex_def] r e] .
  have pass: "(\<exists>msg. encoder d order e = Inr (0, msg)) \<and> Translate d rt e = Inr e"
    if "\<And>order. \<exists>msg. encoder d order e = Inr (0, msg)"
  proof -
    from that[of "rangeOrder rt"] obtain msg where
      "encoder d (rangeOrder rt) e = Inr (0, msg)" by blast
    from Translate_passthrough[OF this] that[of order] show ?thesis by blast
  qed
  have first: "\<exists>msg. encoder d order e = Inr (0, msg)"
    if others: "\<forall>r'\<in>set rs. r' \<noteq> r \<longrightarrow>
             e \<notin> set (Errors r') \<and> (\<forall>f. Match r' = Some f \<longrightarrow> f e = Inr False)"
      and own: "\<forall>f. Match r = Some f \<longrightarrow> (\<exists>b. f e = Inr b)" for order
  proof (cases "mapaccess (errToCode idx) e")
    case (Some c)
    from indexRules_code_origin[OF idx[unfolded newRuleIndex_def] Some]
    obtain r' where "r' \<in> set rs" "e \<in> set (Errors r')" "Code r' = c"
      by (auto simp: mapaccess_def)
    with others zero have "c = 0" by auto
    with Some h show ?thesis by (simp add: ed defaultEncoder_def)
  next
    case None
    have m: "f e = Inr False \<or> (c = 0 \<and> (\<exists>b. f e = Inr b))"
      if "codeToMatcher idx c = Some f" for c f
    proof -
      from indexRules_matcher_origin[OF idx[unfolded newRuleIndex_def] that]
      obtain r' where r': "r' \<in> set rs" "Code r' = c" "Match r' = Some f" by auto
      show ?thesis
      proof (cases "r' = r")
        case True
        with r' zero own show ?thesis by auto
      next
        case False
        with r' others show ?thesis by blast
      qed
    qed
    have "\<exists>msg. rangeMatchers idx e order = Inr (0, msg)"
      by (rule rangeMatchers_code_zero) (rule m, assumption)
    with None h show ?thesis by (simp add: ed defaultEncoder_def)
  qed
  have second: "\<exists>msg. encoder d order e = Inr (0, msg)"
    if self: "selfEqual e" and all: "\<forall>r'\<in>set rs. e \<in> set (Errors r') \<longrightarrow> Code r' = 0"
    for order
  proof -
    from r obtain pre post where rs: "rs = pre @ r # post" by (auto dest: split_list)
    from idx obtain i0 i1 where
      one: "indexRules [r] i0 = Inr i1" and rest: "indexRules post i1 = Inr idx"
      unfolding newRuleIndex_def rs by (blast dest: indexRules_split)
    have "\<forall>r'\<in>set post. e \<in> set (Errors r') \<longrightarrow> Code r' = Code r"
      using all zero by (simp add: rs)
    from indexRules_code_kept[OF rest indexRules_single(2)[OF one e self] this]
    have "mapaccess (errToCode idx) e = Some 0" by (simp add: zero)
    with h show ?thesis by (simp add: ed defaultEncoder_def)
  qed
  from pass first second show ?thesis by blast
qed

text \<open>
  Claim C10 at \<open>[nanZeroRule, neverRule]\<close> and \<open>nanError\<close>, which the lookup does not
  find, and at \<open>[zeroRule]\<close> and \<open>errUnclassified\<close>.
\<close>

theorem zero_code_rule_passes_through_witness:
  "newDefaultEncoder [nanZeroRule, neverRule] = Inr (encoder nanZeroDecoder) \<and>
   nanZeroRule \<in> set [nanZeroRule, neverRule] \<and> Code nanZeroRule = 0 \<and>
   nanError \<in> set (Errors nanZeroRule) \<and> nanError \<notin> set (Errors neverRule) \<and>
   Match neverRule = Some neverMatch \<and> neverMatch nanError = Inr False \<and>
   Match nanZeroRule = None \<and>
   encoder nanZeroDecoder [1003] nanError = Inr (0, []) \<and>
   Translate nanZeroDecoder \<lparr>rangeOrder = [1003], newAddr = 0\<rparr> nanError = Inr nanError \<and>
   newDefaultEncoder [zeroRule] = Inr (encoder zeroDecoder) \<and>
   zeroRule \<in> set [zeroRule] \<and> Code zeroRule = 0 \<and> errUnclassified \<in> set (Errors zeroRule) \<and>
   selfEqual errUnclassified \<and>
   encoder zeroDecoder [] errUnclassified = Inr (0, ''error.zero'') \<and>
   Translate zeroDecoder \<lparr>rangeOrder = [], newAddr = 0\<rparr> errUnclassified = Inr errUnclassified"
proof -
  have a1: "newDefaultEncoder [nanZeroRule, neverRule] = Inr (encoder nanZeroDecoder)"
    by (simp add: newDefaultEncoder_def newRuleIndex_def Let_def fixture_defs)
  have b1: "nanZeroRule \<in> set [nanZeroRule, neverRule]" "Code nanZeroRule = 0"
    "nanError \<in> set (Errors nanZeroRule)"
    by (simp_all add: nanZeroRule_def)
  have c1: "\<forall>r'\<in>set [nanZeroRule, neverRule]. r' \<noteq> nanZeroRule \<longrightarrow>
             nanError \<notin> set (Errors r') \<and>
             (\<forall>f. Match r' = Some f \<longrightarrow> f nanError = Inr False)"
    "\<forall>f. Match nanZeroRule = Some f \<longrightarrow> (\<exists>b. f nanError = Inr b)"
    by (auto simp: nanZeroRule_def neverRule_def neverMatch_def)
  have d1: "nanError \<notin> set (Errors neverRule)" "Match neverRule = Some neverMatch"
    "neverMatch nanError = Inr False" "Match nanZeroRule = None"
    by (simp_all add: nanZeroRule_def neverRule_def neverMatch_def)
  have a2: "newDefaultEncoder [zeroRule] = Inr (encoder zeroDecoder)"
    by (simp add: newDefaultEncoder_def newRuleIndex_def Let_def fixture_defs)
  have b2: "zeroRule \<in> set [zeroRule]" "Code zeroRule = 0"
    "errUnclassified \<in> set (Errors zeroRule)"
    by (simp_all add: zeroRule_def)
  have c2: "selfEqual errUnclassified"
    "\<forall>r'\<in>set [zeroRule]. errUnclassified \<in> set (Errors r') \<longrightarrow> Code r' = 0"
    by (simp_all add: zeroRule_def errUnclassified_def)
  from zero_code_rule_passes_through[OF a1 b1, of "[1003]"
      "\<lparr>rangeOrder = [1003], newAddr = 0\<rparr>"] c1
  have t1: "Translate nanZeroDecoder \<lparr>rangeOrder = [1003], newAddr = 0\<rparr> nanError =
              Inr nanError"
    by blast
  from zero_code_rule_passes_through[OF a2 b2, of "[]" "\<lparr>rangeOrder = [], newAddr = 0\<rparr>"] c2
  have t2: "Translate zeroDecoder \<lparr>rangeOrder = [], newAddr = 0\<rparr> errUnclassified =
              Inr errUnclassified"
    by blast
  have e1: "encoder nanZeroDecoder [1003] nanError = Inr (0, [])"
    "encoder zeroDecoder [] errUnclassified = Inr (0, ''error.zero'')"
    by (simp_all add: run_defs fixture_defs)
  from a1 b1 d1 a2 b2 c2(1) t1 t2 e1 show ?thesis by simp
qed

end
